theory Spec2Isabelle
  imports Main "HOL-Library.Sublist"
begin

section \<open>The browser session of the EduAssist end-to-end tests\<close>

text \<open>
  The repository drives a browser through Selenium. Its own code is the class
  \<^verbatim>\<open>DriverManager\<close> (\<^verbatim>\<open>utils/driver_manager.py\<close>) and the page base class
  \<^verbatim>\<open>BasePage\<close> (\<^verbatim>\<open>pages/base_page.py\<close>); the browser and the Selenium library are
  its environment. The model keeps the two apart: every function of the two classes is
  a HOL function over a state \<open>world\<close>, and every answer of the environment is a field
  of that state which the functions only read.
\<close>

subsection \<open>Exceptions\<close>

text \<open>
  Raising is returning \<open>Inl\<close>. The constructors are the exception classes that the code
  names or that Python and Selenium raise in the modelled calls; all of them are
  subclasses of Python's \<^verbatim>\<open>Exception\<close>, so \<^verbatim>\<open>except Exception\<close> catches each of them.
  \<open>AttributeError\<close> is what Python raises for an attribute access on \<^verbatim>\<open>None\<close>.
\<close>

datatype exn =
    TimeoutException
  | NoSuchElementException
  | StaleElementReferenceException
  | ElementNotInteractableException
  | WebDriverException
  | AttributeError
  | RuntimeError string

subsection \<open>Locators and elements\<close>

datatype By = CSS_SELECTOR | XPATH | ID | CLASS_NAME | TAG_NAME | LINK_TEXT | PARTIAL_LINK_TEXT

type_synonym locator = "By \<times> string"

definition by_css :: "string \<Rightarrow> locator" where
  "by_css selector = (CSS_SELECTOR, selector)"

definition by_xpath :: "string \<Rightarrow> locator" where
  "by_xpath xpath = (XPATH, xpath)"

definition by_id :: "string \<Rightarrow> locator" where
  "by_id element_id = (ID, element_id)"

text \<open>
  A \<^verbatim>\<open>WebElement\<close> is a handle; the element it names lives in the page. The commands
  that the code sends to an element are listed in \<open>command\<close>. An element of the page
  has its rendered text (what \<^verbatim>\<open>element.text\<close> returns), the value of its \<^verbatim>\<open>value\<close>
  property (what typing changes in a form control), its other attributes, its
  visibility, and for every command the exception with which the automation endpoint
  answers it, if it does (stale element, not interactable, any rejection).
\<close>

type_synonym elem = nat

datatype command = Click | Clear | SendKeys | GetText | GetAttribute | IsDisplayed

record element =
  rendered :: string
  val :: string
  attrs :: "string \<Rightarrow> string option"
  shown :: bool
  fault :: "command \<Rightarrow> exn option"

subsection \<open>Printed messages\<close>

text \<open>Each \<^verbatim>\<open>print\<close> of the modelled functions is one constructor, with the values it formats.\<close>

datatype diag =
    Page_load_timeout
  | Element_not_found locator
  | Element_not_clickable locator
  | Click_failed exn
  | Text_input_failed exn
  | Get_text_failed exn
  | Get_attribute_failed exn
  | Found_with_selector string
  | Clicked_with_selector string
  | No_working_selector "string list"
  | Cleaning_up
  | Cleanup_completed
  | Cleanup_error exn

subsection \<open>Configuration\<close>

text \<open>\<^verbatim>\<open>config.TIMEOUTS\<close> of \<^verbatim>\<open>config/test_config.py\<close>, in seconds.\<close>

datatype tier = short | medium | long | ai_response

fun TIMEOUTS :: "tier \<Rightarrow> int" where
  "TIMEOUTS short = 5"
| "TIMEOUTS medium = 15"
| "TIMEOUTS long = 30"
| "TIMEOUTS ai_response = 45"

text \<open>
  The idiom \<^verbatim>\<open>timeout = timeout or config.TIMEOUTS[...]\<close>: the argument is \<^verbatim>\<open>None\<close> or an
  integer, and Python's \<^verbatim>\<open>or\<close> takes the right operand when the left one is falsy, which
  for these values means \<^verbatim>\<open>None\<close> or \<open>0\<close>.
\<close>

definition or_default :: "int option \<Rightarrow> int \<Rightarrow> int" where
  "or_default timeout d = (case timeout of None \<Rightarrow> d | Some t \<Rightarrow> if t = 0 then d else t)"

subsection \<open>The state\<close>

text \<open>
  The session: \<open>driver\<close> and \<open>wait\<close> are the class attributes \<^verbatim>\<open>_driver\<close> and \<^verbatim>\<open>_wait\<close>
  (\<open>None\<close> before initialisation and after a successful \<^verbatim>\<open>quit_driver\<close>); \<open>out\<close> is
  the printed output.

  The clock \<open>now\<close> counts milliseconds. It is advanced by \<^verbatim>\<open>time.sleep(0.5)\<close> and by a
  Selenium wait, by the time that wait takes; every other command is taken to be
  instantaneous. A sleep takes its 500 milliseconds and \<open>lag\<close> more: by how much a sleep
  that starts at a given instant oversleeps is the environment's. \<open>sleeps\<close> counts the
  calls of \<^verbatim>\<open>time.sleep(0.5)\<close> and \<open>waited\<close> lists the timeouts of the \<^verbatim>\<open>WebDriverWait\<close>
  objects used so far.

  The environment: \<open>page\<close> holds the elements. \<open>until_present\<close>, \<open>until_clickable\<close> and
  \<open>until_ready\<close> say what \<^verbatim>\<open>WebDriverWait(driver, timeout).until(condition)\<close> does for the
  three conditions the code waits for, when started at a given instant with a given
  timeout (in seconds): the element it returns or the exception it raises, and the
  milliseconds it takes. \<open>url_at\<close> and \<open>title_at\<close> say what the driver's \<^verbatim>\<open>current_url\<close>
  and \<^verbatim>\<open>title\<close> give at each instant, so a page that changes while the test waits is
  a function that is not constant. \<open>quit_res\<close> is the outcome of the \<open>n\<close>-th call of the
  driver's \<^verbatim>\<open>quit()\<close>, and \<open>quits\<close> counts these calls.
\<close>

record world =
  now :: int
  sleeps :: nat
  waited :: "int list"
  out :: "diag list"
  driver :: "nat option"
  wait :: "int option"
  quits :: nat
  page :: "elem \<Rightarrow> element"
  lag :: "int \<Rightarrow> nat"
  until_present :: "locator \<Rightarrow> int \<Rightarrow> int \<Rightarrow> (exn + elem) \<times> nat"
  until_clickable :: "locator \<Rightarrow> int \<Rightarrow> int \<Rightarrow> (exn + elem) \<times> nat"
  until_ready :: "int \<Rightarrow> int \<Rightarrow> exn option \<times> nat"
  url_at :: "int \<Rightarrow> exn + string"
  title_at :: "int \<Rightarrow> exn + string"
  quit_res :: "nat \<Rightarrow> exn option"

definition print :: "diag \<Rightarrow> world \<Rightarrow> world" where
  "print d w = w\<lparr>out := out w @ [d]\<rparr>"

text \<open>\<^verbatim>\<open>time.sleep(0.5)\<close>.\<close>

definition sleep_half :: "world \<Rightarrow> world" where
  "sleep_half w = w\<lparr>now := now w + 500 + int (lag w (now w)), sleeps := Suc (sleeps w)\<rparr>"

text \<open>
  \<^verbatim>\<open>WebDriverWait(cls._driver, timeout).until(condition)\<close>. The constructor accepts any
  driver, also \<^verbatim>\<open>None\<close>; \<^verbatim>\<open>until\<close> then hands the driver to the condition, whose first
  attribute access on \<^verbatim>\<open>None\<close> raises.
\<close>

definition web_driver_wait ::
  "(int \<Rightarrow> int \<Rightarrow> 'a \<times> nat) \<Rightarrow> (exn \<Rightarrow> 'a) \<Rightarrow> int \<Rightarrow> world \<Rightarrow> 'a \<times> world" where
  "web_driver_wait condition raise timeout w =
     (let w1 = w\<lparr>waited := waited w @ [timeout]\<rparr> in
      case driver w of
        None \<Rightarrow> (raise AttributeError, w1)
      | Some d \<Rightarrow>
          (case condition timeout (now w) of
             (r, dur) \<Rightarrow> (r, w1\<lparr>now := now w + int dur\<rparr>)))"

subsection \<open>Commands on an element\<close>

text \<open>
  A command on an element raises the element's fault for that command, if it has one,
  and does its work otherwise: \<^verbatim>\<open>clear()\<close> empties the value, \<^verbatim>\<open>send_keys(text)\<close> appends the
  text to it, \<^verbatim>\<open>.text\<close> gives the rendered text, \<^verbatim>\<open>get_attribute("value")\<close> gives the
  value and \<^verbatim>\<open>get_attribute\<close> of another name gives that attribute or \<^verbatim>\<open>None\<close>. What a
  click does to the page shows in the answers of the environment from then on.
\<close>

definition el_is_displayed :: "elem \<Rightarrow> world \<Rightarrow> exn + bool" where
  "el_is_displayed e w =
     (case fault (page w e) IsDisplayed of Some x \<Rightarrow> Inl x | None \<Rightarrow> Inr (shown (page w e)))"

definition el_click :: "elem \<Rightarrow> world \<Rightarrow> exn + unit" where
  "el_click e w = (case fault (page w e) Click of Some x \<Rightarrow> Inl x | None \<Rightarrow> Inr ())"

definition el_clear :: "elem \<Rightarrow> world \<Rightarrow> (exn + unit) \<times> world" where
  "el_clear e w =
     (case fault (page w e) Clear of
        Some x \<Rightarrow> (Inl x, w)
      | None \<Rightarrow> (Inr (), w\<lparr>page := (page w)(e := (page w e)\<lparr>val := []\<rparr>)\<rparr>))"

definition el_send_keys :: "elem \<Rightarrow> string \<Rightarrow> world \<Rightarrow> (exn + unit) \<times> world" where
  "el_send_keys e text w =
     (case fault (page w e) SendKeys of
        Some x \<Rightarrow> (Inl x, w)
      | None \<Rightarrow> (Inr (), w\<lparr>page := (page w)(e := (page w e)\<lparr>val := val (page w e) @ text\<rparr>)\<rparr>))"

definition el_text :: "elem \<Rightarrow> world \<Rightarrow> exn + string" where
  "el_text e w =
     (case fault (page w e) GetText of Some x \<Rightarrow> Inl x | None \<Rightarrow> Inr (rendered (page w e)))"

definition el_get_attribute :: "elem \<Rightarrow> string \<Rightarrow> world \<Rightarrow> exn + string option" where
  "el_get_attribute e name w =
     (case fault (page w e) GetAttribute of
        Some x \<Rightarrow> Inl x
      | None \<Rightarrow> Inr (if name = ''value'' then Some (val (page w e)) else attrs (page w e) name))"

section \<open>DriverManager\<close>

text \<open>
  \<^verbatim>\<open>utils/driver_manager.py\<close>. Only \<^verbatim>\<open>get_driver\<close> and \<^verbatim>\<open>get_wait\<close> test the handle; the other
  functions use \<^verbatim>\<open>cls._driver\<close> as it is.
\<close>

definition get_driver :: "world \<Rightarrow> exn + nat" where
  "get_driver w =
     (case driver w of
        None \<Rightarrow> Inl (RuntimeError ''WebDriver not initialized. Call initialize_driver() first.'')
      | Some d \<Rightarrow> Inr d)"

definition get_wait :: "world \<Rightarrow> exn + int" where
  "get_wait w =
     (case wait w of
        None \<Rightarrow> Inl (RuntimeError ''WebDriverWait not initialized. Call initialize_driver() first.'')
      | Some t \<Rightarrow> Inr t)"

text \<open>
  The three waits have the same shape: the timeout in force, the Selenium wait, and
  \<^verbatim>\<open>except TimeoutException\<close>, which prints and returns (\<^verbatim>\<open>None\<close> for the two lookups).
  Any other exception of the wait is not caught.
\<close>

definition wait_for_page_load :: "int option \<Rightarrow> world \<Rightarrow> (exn + unit) \<times> world" where
  "wait_for_page_load timeout w =
     (let timeout = or_default timeout (TIMEOUTS medium) in
      case web_driver_wait (until_ready w) Some timeout w of
        (None, w') \<Rightarrow> (Inr (), w')
      | (Some e, w') \<Rightarrow>
          if e = TimeoutException then (Inr (), print Page_load_timeout w') else (Inl e, w'))"

definition find_element_safe :: "locator \<Rightarrow> int option \<Rightarrow> world \<Rightarrow> (exn + elem option) \<times> world" where
  "find_element_safe locator timeout w =
     (let timeout = or_default timeout (TIMEOUTS medium) in
      case web_driver_wait (until_present w locator) Inl timeout w of
        (Inr element, w') \<Rightarrow> (Inr (Some element), w')
      | (Inl e, w') \<Rightarrow>
          if e = TimeoutException then (Inr None, print (Element_not_found locator) w')
          else (Inl e, w'))"

definition wait_for_element_clickable ::
  "locator \<Rightarrow> int option \<Rightarrow> world \<Rightarrow> (exn + elem option) \<times> world" where
  "wait_for_element_clickable locator timeout w =
     (let timeout = or_default timeout (TIMEOUTS medium) in
      case web_driver_wait (until_clickable w locator) Inl timeout w of
        (Inr element, w') \<Rightarrow> (Inr (Some element), w')
      | (Inl e, w') \<Rightarrow>
          if e = TimeoutException then (Inr None, print (Element_not_clickable locator) w')
          else (Inl e, w'))"

text \<open>
  The three interactions look the element up (an element handle is truthy, so
  \<^verbatim>\<open>if element:\<close> asks whether the lookup returned one) and wrap the interaction itself
  in \<^verbatim>\<open>try: ... except Exception\<close>, which prints and returns \<^verbatim>\<open>False\<close> or \<^verbatim>\<open>""\<close>.
  \<^verbatim>\<open>type_text_safe\<close> and \<^verbatim>\<open>get_text_safe\<close> call \<^verbatim>\<open>find_element_safe\<close> with no timeout.
\<close>

definition click_element_safe :: "locator \<Rightarrow> int option \<Rightarrow> world \<Rightarrow> (exn + bool) \<times> world" where
  "click_element_safe locator timeout w =
     (case wait_for_element_clickable locator timeout w of
        (Inl e, w') \<Rightarrow> (Inl e, w')
      | (Inr None, w') \<Rightarrow> (Inr False, w')
      | (Inr (Some element), w') \<Rightarrow>
          (case el_click element w' of
             Inl e \<Rightarrow> (Inr False, print (Click_failed e) w')
           | Inr _ \<Rightarrow> (Inr True, w')))"

definition type_text_safe :: "locator \<Rightarrow> string \<Rightarrow> bool \<Rightarrow> world \<Rightarrow> (exn + bool) \<times> world" where
  "type_text_safe locator text clear_first w =
     (case find_element_safe locator None w of
        (Inl e, w') \<Rightarrow> (Inl e, w')
      | (Inr None, w') \<Rightarrow> (Inr False, w')
      | (Inr (Some element), w') \<Rightarrow>
          (case (if clear_first then el_clear element w' else (Inr (), w')) of
             (Inl e, w1) \<Rightarrow> (Inr False, print (Text_input_failed e) w1)
           | (Inr _, w1) \<Rightarrow>
               (case el_send_keys element text w1 of
                  (Inl e, w2) \<Rightarrow> (Inr False, print (Text_input_failed e) w2)
                | (Inr _, w2) \<Rightarrow> (Inr True, w2))))"

definition get_text_safe :: "locator \<Rightarrow> world \<Rightarrow> (exn + string) \<times> world" where
  "get_text_safe locator w =
     (case find_element_safe locator None w of
        (Inl e, w') \<Rightarrow> (Inl e, w')
      | (Inr None, w') \<Rightarrow> (Inr [], w')
      | (Inr (Some element), w') \<Rightarrow>
          (case el_text element w' of
             Inl e \<Rightarrow> (Inr [], print (Get_text_failed e) w')
           | Inr s \<Rightarrow> (Inr s, w')))"

text \<open>\<^verbatim>\<open>cls._driver.current_url\<close> and \<^verbatim>\<open>cls._driver.title\<close>, with no \<^verbatim>\<open>try\<close>.\<close>

definition get_current_url :: "world \<Rightarrow> exn + string" where
  "get_current_url w = (case driver w of None \<Rightarrow> Inl AttributeError | Some d \<Rightarrow> url_at w (now w))"

definition get_title :: "world \<Rightarrow> exn + string" where
  "get_title w = (case driver w of None \<Rightarrow> Inl AttributeError | Some d \<Rightarrow> title_at w (now w))"

text \<open>
  \<^verbatim>\<open>quit_driver\<close>: with a driver, the driver's \<^verbatim>\<open>quit()\<close> and the two assignments of
  \<^verbatim>\<open>None\<close> stand in one \<^verbatim>\<open>try\<close>, so a \<^verbatim>\<open>quit()\<close> that raises leaves both handles as
  they were; \<^verbatim>\<open>except Exception\<close> prints the error and the function returns.
\<close>

definition quit_driver :: "world \<Rightarrow> (exn + unit) \<times> world" where
  "quit_driver w =
     (case driver w of
        None \<Rightarrow> (Inr (), w)
      | Some d \<Rightarrow>
          (let w1 = (print Cleaning_up w)\<lparr>quits := Suc (quits w)\<rparr> in
           case quit_res w (quits w) of
             Some e \<Rightarrow> (Inr (), print (Cleanup_error e) w1)
           | None \<Rightarrow> (Inr (), print Cleanup_completed (w1\<lparr>driver := None, wait := None\<rparr>))))"

section \<open>BasePage\<close>

text \<open>
  \<^verbatim>\<open>BasePage.find_element_safe\<close>, \<^verbatim>\<open>click_element\<close>, \<^verbatim>\<open>type_text\<close>, \<^verbatim>\<open>get_text\<close>,
  \<^verbatim>\<open>get_current_url\<close> and \<^verbatim>\<open>get_page_title\<close> forward their arguments to the
  \<^verbatim>\<open>DriverManager\<close> function of the same purpose.
\<close>

definition click_element :: "locator \<Rightarrow> int option \<Rightarrow> world \<Rightarrow> (exn + bool) \<times> world" where
  "click_element locator timeout w = click_element_safe locator timeout w"

definition type_text :: "locator \<Rightarrow> string \<Rightarrow> bool \<Rightarrow> world \<Rightarrow> (exn + bool) \<times> world" where
  "type_text locator text clear_first w = type_text_safe locator text clear_first w"

definition get_text :: "locator \<Rightarrow> world \<Rightarrow> (exn + string) \<times> world" where
  "get_text locator w = get_text_safe locator w"

definition get_page_title :: "world \<Rightarrow> exn + string" where
  "get_page_title w = get_title w"

text \<open>\<^verbatim>\<open>element.get_attribute(attribute) or ""\<close>: \<^verbatim>\<open>None\<close> and the empty string give \<^verbatim>\<open>""\<close>.\<close>

definition get_element_attribute :: "locator \<Rightarrow> string \<Rightarrow> world \<Rightarrow> (exn + string) \<times> world" where
  "get_element_attribute locator attribute w =
     (case find_element_safe locator None w of
        (Inl e, w') \<Rightarrow> (Inl e, w')
      | (Inr None, w') \<Rightarrow> (Inr [], w')
      | (Inr (Some element), w') \<Rightarrow>
          (case el_get_attribute element attribute w' of
             Inl e \<Rightarrow> (Inr [], print (Get_attribute_failed e) w')
           | Inr None \<Rightarrow> (Inr [], w')
           | Inr (Some s) \<Rightarrow> (Inr s, w')))"

subsection \<open>try_multiple_selectors\<close>

text \<open>
  The function returns the element, \<^verbatim>\<open>True\<close> (after a click) or \<^verbatim>\<open>None\<close>: the three
  constructors of \<open>selector_result\<close>. The \<^verbatim>\<open>for\<close> loop is \<open>selectors_loop\<close>, which
  carries the whole list for the last message; \<^verbatim>\<open>except Exception: continue\<close> is the
  \<open>Inl\<close> branch that goes on with the rest. With an \<^verbatim>\<open>action\<close> other than \<^verbatim>\<open>"find"\<close> and
  \<^verbatim>\<open>"click"\<close> the body does nothing.
\<close>

datatype selector_result = Element elem | Clicked | NoElement

fun selectors_loop ::
  "string list \<Rightarrow> string list \<Rightarrow> string \<Rightarrow> world \<Rightarrow> selector_result \<times> world" where
  "selectors_loop selectors [] action w = (NoElement, print (No_working_selector selectors) w)"
| "selectors_loop selectors (selector # rest) action w =
     (if action = ''find'' then
        (case find_element_safe (by_css selector) (Some 2) w of
           (Inl e, w') \<Rightarrow> selectors_loop selectors rest action w'
         | (Inr None, w') \<Rightarrow> selectors_loop selectors rest action w'
         | (Inr (Some element), w') \<Rightarrow>
             (case el_is_displayed element w' of
                Inl e \<Rightarrow> selectors_loop selectors rest action w'
              | Inr displayed \<Rightarrow>
                  if displayed then (Element element, print (Found_with_selector selector) w')
                  else selectors_loop selectors rest action w'))
      else if action = ''click'' then
        (case click_element (by_css selector) (Some 2) w of
           (Inl e, w') \<Rightarrow> selectors_loop selectors rest action w'
         | (Inr clicked, w') \<Rightarrow>
             if clicked then (Clicked, print (Clicked_with_selector selector) w')
             else selectors_loop selectors rest action w')
      else selectors_loop selectors rest action w)"

definition try_multiple_selectors :: "string list \<Rightarrow> string \<Rightarrow> world \<Rightarrow> selector_result \<times> world" where
  "try_multiple_selectors selectors action w = selectors_loop selectors selectors action w"

subsection \<open>wait_for_any_element\<close>

text \<open>
  The inner \<^verbatim>\<open>for\<close> loop is \<open>scan_selectors\<close>: there is no \<^verbatim>\<open>try\<close> around it, so an
  exception of the lookup or of \<^verbatim>\<open>is_displayed()\<close> leaves the function. The \<^verbatim>\<open>while\<close>
  loop is \<open>any_element_loop\<close>; the seconds of \<^verbatim>\<open>timeout\<close> are compared with the
  milliseconds of the clock.
\<close>

fun scan_selectors :: "string list \<Rightarrow> world \<Rightarrow> (exn + elem option) \<times> world" where
  "scan_selectors [] w = (Inr None, w)"
| "scan_selectors (selector # rest) w =
     (case find_element_safe (by_css selector) (Some 1) w of
        (Inl e, w') \<Rightarrow> (Inl e, w')
      | (Inr None, w') \<Rightarrow> scan_selectors rest w'
      | (Inr (Some element), w') \<Rightarrow>
          (case el_is_displayed element w' of
             Inl e \<Rightarrow> (Inl e, w')
           | Inr displayed \<Rightarrow>
               if displayed then (Inr (Some element), w') else scan_selectors rest w'))"

lemma now_web_driver_wait: "now w \<le> now (snd (web_driver_wait c r t w))"
  by (simp add: web_driver_wait_def Let_def split: option.splits prod.splits)

lemma now_find_element_safe: "now w \<le> now (snd (find_element_safe l t w))"
proof -
  have "now w \<le> now (snd (web_driver_wait (until_present w l) Inl (or_default t (TIMEOUTS medium)) w))"
    by (rule now_web_driver_wait)
  then show ?thesis
    by (auto simp: find_element_safe_def Let_def print_def split: prod.splits sum.splits)
qed

lemma now_scan_selectors: "now w \<le> now (snd (scan_selectors selectors w))"
proof (induction selectors arbitrary: w)
  case Nil
  show ?case by simp
next
  case (Cons selector rest)
  have step: "now w \<le> now (snd (find_element_safe (by_css selector) (Some 1) w))"
    by (rule now_find_element_safe)
  show ?case
  proof (cases "find_element_safe (by_css selector) (Some 1) w")
    case (Pair r w')
    with step have le: "now w \<le> now w'" by simp
    from Cons.IH [of w'] le have "now w \<le> now (snd (scan_selectors rest w'))" by simp
    with le Pair show ?thesis
      by (auto split: sum.splits option.splits)
  qed
qed

function any_element_loop ::
  "string list \<Rightarrow> int \<Rightarrow> int \<Rightarrow> world \<Rightarrow> (exn + elem option) \<times> world" where
  "any_element_loop selectors timeout start_time w =
     (if now w - start_time < timeout * 1000 then
        (case scan_selectors selectors w of
           (Inl e, w') \<Rightarrow> (Inl e, w')
         | (Inr (Some element), w') \<Rightarrow> (Inr (Some element), w')
         | (Inr None, w') \<Rightarrow> any_element_loop selectors timeout start_time (sleep_half w'))
      else (Inr None, w))"
  by pat_completeness auto
termination
proof (relation "measure (\<lambda>(selectors, timeout, start_time, w). nat (timeout * 1000 - (now w - start_time)))")
  show "wf (measure (\<lambda>(selectors, timeout, start_time, w). nat (timeout * 1000 - (now w - start_time))))"
    by simp
next
  fix selectors :: "string list" and timeout start_time :: int and w x1 w' :: world
    and x2 :: "exn + elem option" and y :: "elem option"
  assume guard: "now w - start_time < timeout * 1000"
    and scan: "(x2, w') = scan_selectors selectors w"
  have "now w \<le> now (snd (scan_selectors selectors w))"
    by (rule now_scan_selectors)
  with scan have "now w \<le> now w'"
    by (metis snd_conv)
  with guard show "((selectors, timeout, start_time, sleep_half w'), selectors, timeout, start_time, w)
      \<in> measure (\<lambda>(selectors, timeout, start_time, w). nat (timeout * 1000 - (now w - start_time)))"
    by (simp add: sleep_half_def)
qed

declare any_element_loop.simps [simp del]

definition wait_for_any_element ::
  "string list \<Rightarrow> int option \<Rightarrow> world \<Rightarrow> (exn + elem option) \<times> world" where
  "wait_for_any_element selectors timeout w =
     (let timeout = or_default timeout (TIMEOUTS medium); start_time = now w
      in any_element_loop selectors timeout start_time w)"

subsection \<open>wait_for_url_contains and wait_for_title_contains\<close>

text \<open>
  Python's \<^verbatim>\<open>text in s\<close> on strings is \<open>sublist text s\<close>: \<open>text\<close> occurs in \<open>s\<close> as a
  contiguous block. \<^verbatim>\<open>str.lower()\<close> is modelled on the characters of the model, which are
  bytes: the ASCII capitals go to their small letters and every other byte stays.
\<close>

definition lower_char :: "char \<Rightarrow> char" where
  "lower_char c = (let n = of_char c :: nat in if 65 \<le> n \<and> n \<le> 90 then char_of (n + 32) else c)"

definition lower :: "string \<Rightarrow> string" where
  "lower s = map lower_char s"

function url_loop :: "string \<Rightarrow> int \<Rightarrow> int \<Rightarrow> world \<Rightarrow> (exn + bool) \<times> world" where
  "url_loop text timeout start_time w =
     (if now w - start_time < timeout * 1000 then
        (case get_current_url w of
           Inl e \<Rightarrow> (Inl e, w)
         | Inr url \<Rightarrow>
             if sublist text url then (Inr True, w)
             else url_loop text timeout start_time (sleep_half w))
      else (Inr False, w))"
  by pat_completeness auto
termination
  by (relation "measure (\<lambda>(text, timeout, start_time, w). nat (timeout * 1000 - (now w - start_time)))")
     (auto simp: sleep_half_def)

declare url_loop.simps [simp del]

definition wait_for_url_contains :: "string \<Rightarrow> int option \<Rightarrow> world \<Rightarrow> (exn + bool) \<times> world" where
  "wait_for_url_contains text timeout w =
     (let timeout = or_default timeout (TIMEOUTS medium); start_time = now w
      in url_loop text timeout start_time w)"

function title_loop :: "string \<Rightarrow> int \<Rightarrow> int \<Rightarrow> world \<Rightarrow> (exn + bool) \<times> world" where
  "title_loop text timeout start_time w =
     (if now w - start_time < timeout * 1000 then
        (case get_page_title w of
           Inl e \<Rightarrow> (Inl e, w)
         | Inr title \<Rightarrow>
             if sublist (lower text) (lower title) then (Inr True, w)
             else title_loop text timeout start_time (sleep_half w))
      else (Inr False, w))"
  by pat_completeness auto
termination
  by (relation "measure (\<lambda>(text, timeout, start_time, w). nat (timeout * 1000 - (now w - start_time)))")
     (auto simp: sleep_half_def)

declare title_loop.simps [simp del]

definition wait_for_title_contains :: "string \<Rightarrow> int option \<Rightarrow> world \<Rightarrow> (exn + bool) \<times> world" where
  "wait_for_title_contains text timeout w =
     (let timeout = or_default timeout (TIMEOUTS medium); start_time = now w
      in title_loop text timeout start_time w)"

section \<open>Concrete sessions\<close>

text \<open>
  \<open>login_session\<close> is an initialised session on the login page at the instant \<open>0\<close>.
  The page has two elements, the e-mail field (handle \<open>0\<close>) and the password field
  (handle \<open>1\<close>), both empty and visible; the selectors \<^verbatim>\<open>input[type="email"]\<close> and
  \<^verbatim>\<open>input[type="password"]\<close> find them at once, and every other locator misses until its
  wait times out at the end of its timeout. The page is loaded, no sleep oversleeps, and
  the driver's \<^verbatim>\<open>quit()\<close> works. \<open>closed_session\<close> is the same with both handles \<^verbatim>\<open>None\<close>.
\<close>

definition empty_field :: element where
  "empty_field = \<lparr>rendered = [], val = [], attrs = (\<lambda>name. None), shown = True, fault = (\<lambda>c. None)\<rparr>"

definition login_lookup :: "locator \<Rightarrow> int \<Rightarrow> int \<Rightarrow> (exn + elem) \<times> nat" where
  "login_lookup locator timeout start =
     (if locator = by_css ''input[type=\"email\"]'' then (Inr 0, 0)
      else if locator = by_css ''input[type=\"password\"]'' then (Inr 1, 0)
      else (Inl TimeoutException, nat (timeout * 1000)))"

definition login_session :: world where
  "login_session =
     \<lparr>now = 0, sleeps = 0, waited = [], out = [], driver = Some 0, wait = Some 15, quits = 0,
      page = (\<lambda>e. empty_field), lag = (\<lambda>t. 0),
      until_present = login_lookup, until_clickable = login_lookup,
      until_ready = (\<lambda>timeout start. (None, 0)),
      url_at = (\<lambda>t. Inr ''http://localhost:3000/login''),
      title_at = (\<lambda>t. Inr ''EduAssist Login''),
      quit_res = (\<lambda>n. None)\<rparr>"

definition closed_session :: world where
  "closed_session = login_session\<lparr>driver := None, wait := None\<rparr>"

text \<open>
  \<open>navigating_session\<close> is \<open>login_session\<close> just after the login form was sent: the
  browser shows the login page for one more second and the dashboard from then on.
\<close>

definition navigating_session :: world where
  "navigating_session =
     login_session
       \<lparr>url_at := (\<lambda>t. if t < 1000 then Inr ''http://localhost:3000/login''
                        else Inr ''http://localhost:3000/dashboard''),
        title_at := (\<lambda>t. if t < 1000 then Inr ''EduAssist Login'' else Inr ''EduAssist Dashboard'')\<rparr>"

text \<open>
  In \<open>rejecting_session\<close> the lookups fail otherwise than by a timeout: the endpoint
  rejects the lookup command of a presence wait, as it does once the browser window is
  gone, and the wait raises that \<^verbatim>\<open>WebDriverException\<close> at once; a clickability wait finds
  its element, the element is replaced before the wait has read its state, and the wait
  raises \<^verbatim>\<open>StaleElementReferenceException\<close> after half a second. In \<open>stale_session\<close> the
  lookups work as in \<open>login_session\<close>, and every command on an element raises
  \<^verbatim>\<open>StaleElementReferenceException\<close>.
\<close>

definition rejecting_session :: world where
  "rejecting_session =
     login_session
       \<lparr>until_present := (\<lambda>locator timeout start. (Inl WebDriverException, 0)),
        until_clickable := (\<lambda>locator timeout start. (Inl StaleElementReferenceException, 500))\<rparr>"

definition stale_session :: world where
  "stale_session =
     login_session\<lparr>page := (\<lambda>e. empty_field\<lparr>fault := (\<lambda>c. Some StaleElementReferenceException)\<rparr>)\<rparr>"

section \<open>Notions of the properties\<close>

subsection \<open>Resolving selectors\<close>

text \<open>
  The notions in which the properties of \<^verbatim>\<open>try_multiple_selectors\<close> are stated. A
  selector \<^emph>\<open>resolves\<close> to the element \<open>e\<close> in a state when the session has a driver,
  the presence wait for the selector, started at the instant of the state with the
  timeout 2, returns \<open>e\<close>, and \<^verbatim>\<open>is_displayed()\<close> on \<open>e\<close> answers \<^verbatim>\<open>True\<close>. A failed attempt
  leaves the state \<open>attempt selector w\<close>: the clock has moved by the time the wait took.
  The state in which a selector gets its turn is the one left by the failed attempts
  for the selectors before it, \<open>turn w pre\<close>.
\<close>

definition resolves :: "world \<Rightarrow> string \<Rightarrow> elem \<Rightarrow> bool" where
  "resolves w selector e \<longleftrightarrow>
     driver w \<noteq> None
     \<and> fst (until_present w (by_css selector) 2 (now w)) = Inr e
     \<and> fault (page w e) IsDisplayed = None \<and> shown (page w e)"

definition attempt :: "string \<Rightarrow> world \<Rightarrow> world" where
  "attempt selector w = snd (find_element_safe (by_css selector) (Some 2) w)"

definition turn :: "world \<Rightarrow> string list \<Rightarrow> world" where
  "turn w pre = fold attempt pre w"

subsection \<open>Sample instants\<close>

text \<open>
  A loop entered in the state \<open>w\<close> takes its samples at the instants \<open>instant w 0\<close>,
  \<open>instant w 1\<close>, \<dots>: the instant of the call, and from each instant the next one a sleep
  later. It goes on as long as the instant is less than the timeout after the start and
  the sample does not satisfy the condition.
\<close>

fun instant :: "world \<Rightarrow> nat \<Rightarrow> int" where
  "instant w 0 = now w"
| "instant w (Suc k) = instant (sleep_half w) k"

section \<open>Fallback selectors\<close>



declare selectors_loop.simps [simp del]

lemma selectors_loop_hit:
  assumes "resolves w selector e"
  shows "selectors_loop selectors (selector # rest) ''find'' w =
           (Element e, print (Found_with_selector selector) (attempt selector w))"
  using assms
  by (auto simp: selectors_loop.simps resolves_def attempt_def find_element_safe_def
      web_driver_wait_def Let_def print_def or_default_def el_is_displayed_def
      split: option.splits prod.splits sum.splits)

lemma selectors_loop_miss:
  assumes "\<forall>e. \<not> resolves w selector e"
  shows "selectors_loop selectors (selector # rest) ''find'' w =
           selectors_loop selectors rest ''find'' (attempt selector w)"
  using assms
  by (auto simp: selectors_loop.simps resolves_def attempt_def find_element_safe_def
      web_driver_wait_def Let_def print_def or_default_def el_is_displayed_def
      split: option.splits prod.splits sum.splits)

lemma turn_Nil [simp]: "turn w [] = w"
  by (simp add: turn_def)

lemma turn_Cons [simp]: "turn w (selector # rest) = turn (attempt selector w) rest"
  by (simp add: turn_def)

lemma selectors_loop_prefix:
  assumes "\<forall>i<length pre. \<forall>e. \<not> resolves (turn w (take i pre)) (pre ! i) e"
  shows "selectors_loop selectors (pre @ rest) ''find'' w =
           selectors_loop selectors rest ''find'' (turn w pre)"
  using assms
proof (induction pre arbitrary: w)
  case Nil
  show ?case by simp
next
  case (Cons p pre)
  from Cons.prems [rule_format, of 0] have miss: "\<forall>e. \<not> resolves w p e" by simp
  have later: "\<forall>i<length pre. \<forall>e. \<not> resolves (turn (attempt p w) (take i pre)) (pre ! i) e"
  proof (intro allI impI)
    fix i e assume "i < length pre"
    then have "Suc i < length (p # pre)" by simp
    from Cons.prems [rule_format, OF this, of e]
    show "\<not> resolves (turn (attempt p w) (take i pre)) (pre ! i) e" by simp
  qed
  have "selectors_loop selectors ((p # pre) @ rest) ''find'' w =
      selectors_loop selectors (pre @ rest) ''find'' (attempt p w)"
    using selectors_loop_miss [OF miss] by simp
  also have "\<dots> = selectors_loop selectors rest ''find'' (turn (attempt p w) pre)"
    by (rule Cons.IH [OF later])
  finally show ?case by simp
qed

text \<open>
  C1. In \<^verbatim>\<open>"find"\<close> mode \<^verbatim>\<open>try_multiple_selectors\<close> returns the element of the first
  selector of the list, in list order, that resolves when its turn comes: if the
  selectors before \<open>selector\<close> do not resolve at their turn and \<open>selector\<close> resolves to
  \<open>e\<close> at its turn, the result is \<open>e\<close>, whatever the selectors after it would find. If no
  selector of the list resolves at its turn, the result is \<^verbatim>\<open>None\<close>.
\<close>

theorem first_matching_selector_wins:
  "(selectors = pre @ selector # post
      \<and> (\<forall>i<length pre. \<forall>e'. \<not> resolves (turn w (take i pre)) (pre ! i) e')
      \<and> resolves (turn w pre) selector e \<longrightarrow>
    fst (try_multiple_selectors selectors ''find'' w) = Element e)
   \<and> ((\<forall>i<length selectors. \<forall>e'. \<not> resolves (turn w (take i selectors)) (selectors ! i) e') \<longrightarrow>
    fst (try_multiple_selectors selectors ''find'' w) = NoElement)"
proof (intro conjI impI)
  assume a: "selectors = pre @ selector # post
      \<and> (\<forall>i<length pre. \<forall>e'. \<not> resolves (turn w (take i pre)) (pre ! i) e')
      \<and> resolves (turn w pre) selector e"
  then have skip: "selectors_loop selectors (pre @ selector # post) ''find'' w =
      selectors_loop selectors (selector # post) ''find'' (turn w pre)"
    by (intro selectors_loop_prefix) simp
  from a have "resolves (turn w pre) selector e" by simp
  then have "fst (selectors_loop selectors (selector # post) ''find'' (turn w pre)) = Element e"
    by (simp add: selectors_loop_hit [of "turn w pre" selector e])
  with skip a show "fst (try_multiple_selectors selectors ''find'' w) = Element e"
    by (simp add: try_multiple_selectors_def)
next
  assume "\<forall>i<length selectors. \<forall>e'. \<not> resolves (turn w (take i selectors)) (selectors ! i) e'"
  then have "selectors_loop selectors (selectors @ []) ''find'' w =
      selectors_loop selectors [] ''find'' (turn w selectors)"
    by (rule selectors_loop_prefix)
  then show "fst (try_multiple_selectors selectors ''find'' w) = NoElement"
    by (simp add: try_multiple_selectors_def selectors_loop.simps(1))
qed

lemma login_turn:
  "attempt ''.missing-class'' login_session =
     login_session\<lparr>now := 2000, waited := [2],
       out := [Element_not_found (by_css ''.missing-class'')]\<rparr>"
  by (simp add: attempt_def login_session_def find_element_safe_def web_driver_wait_def Let_def
      login_lookup_def by_css_def or_default_def print_def)

theorem first_matching_selector_wins_witness:
  "(\<forall>e. \<not> resolves login_session ''.missing-class'' e)
   \<and> resolves (turn login_session [''.missing-class'']) ''input[type=\"password\"]'' 1
   \<and> resolves (turn login_session [''.missing-class'']) ''input[type=\"email\"]'' 0
   \<and> fst (try_multiple_selectors
         [''.missing-class'', ''input[type=\"password\"]'', ''input[type=\"email\"]''] ''find''
         login_session) = Element 1
   \<and> (\<forall>e. \<not> resolves (turn login_session [''.missing-class'']) ''#missing-id'' e)
   \<and> fst (try_multiple_selectors [''.missing-class'', ''#missing-id''] ''find'' login_session)
       = NoElement"
proof -
  have m0: "\<forall>e. \<not> resolves login_session ''.missing-class'' e"
    by (simp add: resolves_def login_session_def login_lookup_def by_css_def)
  have r1: "resolves (turn login_session [''.missing-class'']) ''input[type=\"password\"]'' 1"
    unfolding turn_Cons turn_Nil login_turn
    by (simp add: resolves_def login_session_def login_lookup_def by_css_def empty_field_def)
  have r0: "resolves (turn login_session [''.missing-class'']) ''input[type=\"email\"]'' 0"
    unfolding turn_Cons turn_Nil login_turn
    by (simp add: resolves_def login_session_def login_lookup_def by_css_def empty_field_def)
  have m1: "\<forall>e. \<not> resolves (turn login_session [''.missing-class'']) ''#missing-id'' e"
    unfolding turn_Cons turn_Nil login_turn
    by (simp add: resolves_def login_session_def login_lookup_def by_css_def)
  have pre: "\<forall>i<length [''.missing-class'']. \<forall>e'.
      \<not> resolves (turn login_session (take i [''.missing-class''])) ([''.missing-class''] ! i) e'"
    using m0 by simp
  have all: "\<forall>i<length [''.missing-class'', ''#missing-id'']. \<forall>e'.
      \<not> resolves (turn login_session (take i [''.missing-class'', ''#missing-id'']))
           ([''.missing-class'', ''#missing-id''] ! i) e'"
  proof (intro allI impI)
    fix i :: nat and e'
    assume "i < length [''.missing-class'', ''#missing-id'']"
    then have "i = 0 \<or> i = 1" by auto
    then show "\<not> resolves (turn login_session (take i [''.missing-class'', ''#missing-id'']))
           ([''.missing-class'', ''#missing-id''] ! i) e'"
      using m0 m1 by auto
  qed
  note T1 = first_matching_selector_wins [where w = login_session
      and selectors = "[''.missing-class'', ''input[type=\"password\"]'', ''input[type=\"email\"]'']"
      and pre = "[''.missing-class'']" and selector = "''input[type=\"password\"]''"
      and post = "[''input[type=\"email\"]'']" and e = 1]
  from T1 pre r1 have hit: "fst (try_multiple_selectors
         [''.missing-class'', ''input[type=\"password\"]'', ''input[type=\"email\"]''] ''find''
         login_session) = Element 1"
    by simp
  note T2 = first_matching_selector_wins [where w = login_session
      and selectors = "[''.missing-class'', ''#missing-id'']"]
  from T2 all have none: "fst (try_multiple_selectors [''.missing-class'', ''#missing-id''] ''find''
      login_session) = NoElement"
    by blast
  from m0 r1 r0 hit m1 none show ?thesis by blast
qed






section \<open>Soft failures\<close>

text \<open>
  C2, as stated, does not hold: \<^verbatim>\<open>find_element_safe\<close> and \<^verbatim>\<open>wait_for_element_clickable\<close>
  catch \<^verbatim>\<open>TimeoutException\<close> only, so another exception of the lookup wait (a stale
  element, the endpoint's rejection of the lookup) leaves all four operations.
\<close>

theorem lookup_exception_propagates:
  "fst (find_element_safe (by_css ''h1'') None rejecting_session) = Inl WebDriverException
   \<and> fst (click_element_safe (by_css ''button'') None rejecting_session)
       = Inl StaleElementReferenceException
   \<and> fst (type_text_safe (by_css ''h1'') ''demo'' True rejecting_session)
       = Inl WebDriverException
   \<and> fst (get_text_safe (by_css ''h1'') rejecting_session) = Inl WebDriverException"
  by (simp add: rejecting_session_def login_session_def find_element_safe_def
      click_element_safe_def wait_for_element_clickable_def type_text_safe_def get_text_safe_def
      web_driver_wait_def Let_def or_default_def)

lemma find_element_safe_timeout:
  assumes "driver w \<noteq> None"
    and "fst (until_present w locator (or_default timeout (TIMEOUTS medium)) (now w)) = Inl TimeoutException"
  shows "\<exists>w'. find_element_safe locator timeout w = (Inr None, w')
           \<and> out w' = out w @ [Element_not_found locator]"
  using assms
  by (auto simp: find_element_safe_def web_driver_wait_def Let_def print_def
      split: option.splits prod.splits sum.splits)

lemma find_element_safe_found:
  assumes "driver w \<noteq> None"
    and "fst (until_present w locator (or_default timeout (TIMEOUTS medium)) (now w)) = Inr element"
  shows "\<exists>w'. find_element_safe locator timeout w = (Inr (Some element), w')
           \<and> out w' = out w \<and> page w' = page w \<and> driver w' = driver w
           \<and> until_present w' = until_present w"
  using assms
  by (auto simp: find_element_safe_def web_driver_wait_def Let_def print_def
      split: option.splits prod.splits sum.splits)

lemma find_element_safe_raises:
  assumes "driver w \<noteq> None"
    and "fst (until_present w locator (or_default timeout (TIMEOUTS medium)) (now w)) = Inl x"
    and "x \<noteq> TimeoutException"
  shows "\<exists>w'. find_element_safe locator timeout w = (Inl x, w')"
  using assms
  by (auto simp: find_element_safe_def web_driver_wait_def Let_def print_def
      split: option.splits prod.splits sum.splits)

lemma wait_for_element_clickable_timeout:
  assumes "driver w \<noteq> None"
    and "fst (until_clickable w locator (or_default timeout (TIMEOUTS medium)) (now w)) = Inl TimeoutException"
  shows "\<exists>w'. wait_for_element_clickable locator timeout w = (Inr None, w')
           \<and> out w' = out w @ [Element_not_clickable locator]"
  using assms
  by (auto simp: wait_for_element_clickable_def web_driver_wait_def Let_def print_def
      split: option.splits prod.splits sum.splits)

lemma wait_for_element_clickable_found:
  assumes "driver w \<noteq> None"
    and "fst (until_clickable w locator (or_default timeout (TIMEOUTS medium)) (now w)) = Inr element"
  shows "\<exists>w'. wait_for_element_clickable locator timeout w = (Inr (Some element), w')
           \<and> out w' = out w \<and> page w' = page w"
  using assms
  by (auto simp: wait_for_element_clickable_def web_driver_wait_def Let_def print_def
      split: option.splits prod.splits sum.splits)

lemma wait_for_element_clickable_raises:
  assumes "driver w \<noteq> None"
    and "fst (until_clickable w locator (or_default timeout (TIMEOUTS medium)) (now w)) = Inl x"
    and "x \<noteq> TimeoutException"
  shows "\<exists>w'. wait_for_element_clickable locator timeout w = (Inl x, w')"
  using assms
  by (auto simp: wait_for_element_clickable_def web_driver_wait_def Let_def print_def
      split: option.splits prod.splits sum.splits)

lemma or_default_None: "or_default None d = d"
  by (simp add: or_default_def)

text \<open>
  C2, amended. In a session with a driver, the four operations turn two kinds of
  failure into a value, each with a printed message: a timeout of the lookup wait
  (\<^verbatim>\<open>None\<close>, \<^verbatim>\<open>False\<close>, \<^verbatim>\<open>False\<close>, \<^verbatim>\<open>""\<close>), and any exception \<open>x\<close> of the interaction itself on
  the element that was found: of \<^verbatim>\<open>click()\<close>, of \<^verbatim>\<open>clear()\<close> or \<^verbatim>\<open>send_keys()\<close>, of
  \<^verbatim>\<open>.text\<close> (\<^verbatim>\<open>False\<close>, \<^verbatim>\<open>False\<close>, \<^verbatim>\<open>""\<close>). An exception of the lookup wait other than
  \<^verbatim>\<open>TimeoutException\<close> is raised to the caller by all four.
\<close>

theorem soft_failures_are_values:
  assumes d: "driver w \<noteq> None"
  shows "(fst (until_present w locator (or_default timeout (TIMEOUTS medium)) (now w))
            = Inl TimeoutException \<longrightarrow>
          fst (find_element_safe locator timeout w) = Inr None
          \<and> out (snd (find_element_safe locator timeout w)) = out w @ [Element_not_found locator])
       \<and> (fst (until_clickable w locator (or_default timeout (TIMEOUTS medium)) (now w))
            = Inl TimeoutException \<longrightarrow>
          fst (click_element_safe locator timeout w) = Inr False
          \<and> out (snd (click_element_safe locator timeout w)) = out w @ [Element_not_clickable locator])
       \<and> (fst (until_present w locator (TIMEOUTS medium) (now w)) = Inl TimeoutException \<longrightarrow>
          fst (type_text_safe locator keys clear_first w) = Inr False
          \<and> out (snd (type_text_safe locator keys clear_first w)) = out w @ [Element_not_found locator]
          \<and> fst (get_text_safe locator w) = Inr []
          \<and> out (snd (get_text_safe locator w)) = out w @ [Element_not_found locator])
       \<and> (fst (until_clickable w locator (or_default timeout (TIMEOUTS medium)) (now w)) = Inr element
            \<and> fault (page w element) Click = Some x \<longrightarrow>
          fst (click_element_safe locator timeout w) = Inr False
          \<and> out (snd (click_element_safe locator timeout w)) = out w @ [Click_failed x])
       \<and> (fst (until_present w locator (TIMEOUTS medium) (now w)) = Inr element
            \<and> (clear_first \<and> fault (page w element) Clear = Some x
                \<or> (clear_first \<and> fault (page w element) Clear = None \<or> \<not> clear_first)
                   \<and> fault (page w element) SendKeys = Some x) \<longrightarrow>
          fst (type_text_safe locator keys clear_first w) = Inr False
          \<and> out (snd (type_text_safe locator keys clear_first w)) = out w @ [Text_input_failed x])
       \<and> (fst (until_present w locator (TIMEOUTS medium) (now w)) = Inr element
            \<and> fault (page w element) GetText = Some x \<longrightarrow>
          fst (get_text_safe locator w) = Inr []
          \<and> out (snd (get_text_safe locator w)) = out w @ [Get_text_failed x])
       \<and> (fst (until_present w locator (or_default timeout (TIMEOUTS medium)) (now w)) = Inl x
            \<and> x \<noteq> TimeoutException \<longrightarrow>
          fst (find_element_safe locator timeout w) = Inl x)
       \<and> (fst (until_clickable w locator (or_default timeout (TIMEOUTS medium)) (now w)) = Inl x
            \<and> x \<noteq> TimeoutException \<longrightarrow>
          fst (click_element_safe locator timeout w) = Inl x)
       \<and> (fst (until_present w locator (TIMEOUTS medium) (now w)) = Inl x
            \<and> x \<noteq> TimeoutException \<longrightarrow>
          fst (type_text_safe locator keys clear_first w) = Inl x
          \<and> fst (get_text_safe locator w) = Inl x)"
proof (intro conjI impI)
  assume "fst (until_present w locator (or_default timeout (TIMEOUTS medium)) (now w))
            = Inl TimeoutException"
  from find_element_safe_timeout [OF d this]
  show "fst (find_element_safe locator timeout w) = Inr None"
    and "out (snd (find_element_safe locator timeout w)) = out w @ [Element_not_found locator]"
    by auto
next
  assume "fst (until_clickable w locator (or_default timeout (TIMEOUTS medium)) (now w))
            = Inl TimeoutException"
  from wait_for_element_clickable_timeout [OF d this]
  show "fst (click_element_safe locator timeout w) = Inr False"
    and "out (snd (click_element_safe locator timeout w)) = out w @ [Element_not_clickable locator]"
    by (auto simp: click_element_safe_def)
next
  assume "fst (until_present w locator (TIMEOUTS medium) (now w)) = Inl TimeoutException"
  then have "fst (until_present w locator (or_default None (TIMEOUTS medium)) (now w))
      = Inl TimeoutException"
    by (simp only: or_default_None)
  from find_element_safe_timeout [OF d this]
  show "fst (type_text_safe locator keys clear_first w) = Inr False"
    and "out (snd (type_text_safe locator keys clear_first w)) = out w @ [Element_not_found locator]"
    and "fst (get_text_safe locator w) = Inr []"
    and "out (snd (get_text_safe locator w)) = out w @ [Element_not_found locator]"
    by (auto simp: type_text_safe_def get_text_safe_def)
next
  assume a: "fst (until_clickable w locator (or_default timeout (TIMEOUTS medium)) (now w)) = Inr element
            \<and> fault (page w element) Click = Some x"
  then have "fst (until_clickable w locator (or_default timeout (TIMEOUTS medium)) (now w)) = Inr element"
    by simp
  from wait_for_element_clickable_found [OF d this] a
  show "fst (click_element_safe locator timeout w) = Inr False"
    and "out (snd (click_element_safe locator timeout w)) = out w @ [Click_failed x]"
    by (auto simp: click_element_safe_def el_click_def print_def)
next
  assume a: "fst (until_present w locator (TIMEOUTS medium) (now w)) = Inr element
            \<and> (clear_first \<and> fault (page w element) Clear = Some x
                \<or> (clear_first \<and> fault (page w element) Clear = None \<or> \<not> clear_first)
                   \<and> fault (page w element) SendKeys = Some x)"
  then have "fst (until_present w locator (TIMEOUTS medium) (now w)) = Inr element" by blast
  then have "fst (until_present w locator (or_default None (TIMEOUTS medium)) (now w)) = Inr element"
    by (simp only: or_default_None)
  from find_element_safe_found [OF d this] a
  show "fst (type_text_safe locator keys clear_first w) = Inr False"
    and "out (snd (type_text_safe locator keys clear_first w)) = out w @ [Text_input_failed x]"
    by (auto simp: type_text_safe_def el_clear_def el_send_keys_def print_def)
next
  assume a: "fst (until_present w locator (TIMEOUTS medium) (now w)) = Inr element
            \<and> fault (page w element) GetText = Some x"
  then have "fst (until_present w locator (TIMEOUTS medium) (now w)) = Inr element" by blast
  then have "fst (until_present w locator (or_default None (TIMEOUTS medium)) (now w)) = Inr element"
    by (simp only: or_default_None)
  from find_element_safe_found [OF d this] a
  show "fst (get_text_safe locator w) = Inr []"
    and "out (snd (get_text_safe locator w)) = out w @ [Get_text_failed x]"
    by (auto simp: get_text_safe_def el_text_def print_def)
next
  assume a: "fst (until_present w locator (or_default timeout (TIMEOUTS medium)) (now w)) = Inl x
            \<and> x \<noteq> TimeoutException"
  then have 1: "fst (until_present w locator (or_default timeout (TIMEOUTS medium)) (now w)) = Inl x"
    and 2: "x \<noteq> TimeoutException" by simp_all
  from find_element_safe_raises [OF d 1 2]
  show "fst (find_element_safe locator timeout w) = Inl x" by auto
next
  assume a: "fst (until_clickable w locator (or_default timeout (TIMEOUTS medium)) (now w)) = Inl x
            \<and> x \<noteq> TimeoutException"
  then have 1: "fst (until_clickable w locator (or_default timeout (TIMEOUTS medium)) (now w)) = Inl x"
    and 2: "x \<noteq> TimeoutException" by simp_all
  from wait_for_element_clickable_raises [OF d 1 2]
  show "fst (click_element_safe locator timeout w) = Inl x"
    by (auto simp: click_element_safe_def)
next
  assume a: "fst (until_present w locator (TIMEOUTS medium) (now w)) = Inl x
            \<and> x \<noteq> TimeoutException"
  then have 2: "x \<noteq> TimeoutException" by simp
  from a have "fst (until_present w locator (TIMEOUTS medium) (now w)) = Inl x" by blast
  then have 1: "fst (until_present w locator (or_default None (TIMEOUTS medium)) (now w)) = Inl x"
    by (simp only: or_default_None)
  from find_element_safe_raises [OF d 1 2]
  show "fst (type_text_safe locator keys clear_first w) = Inl x"
    and "fst (get_text_safe locator w) = Inl x"
    by (auto simp: type_text_safe_def get_text_safe_def)
qed


theorem soft_failures_are_values_witness:
  "driver login_session \<noteq> None
   \<and> fst (until_present login_session (by_css ''.missing'') (TIMEOUTS medium) (now login_session))
       = Inl TimeoutException
   \<and> fst (find_element_safe (by_css ''.missing'') None login_session) = Inr None
   \<and> out (snd (find_element_safe (by_css ''.missing'') None login_session))
       = [Element_not_found (by_css ''.missing'')]
   \<and> fst (click_element_safe (by_css ''.missing'') None login_session) = Inr False
   \<and> out (snd (click_element_safe (by_css ''.missing'') None login_session))
       = [Element_not_clickable (by_css ''.missing'')]
   \<and> fst (type_text_safe (by_css ''.missing'') ''demo'' True login_session) = Inr False
   \<and> fst (get_text_safe (by_css ''.missing'') login_session) = Inr []
   \<and> driver stale_session \<noteq> None
   \<and> fst (until_present stale_session (by_css ''input[type=\"email\"]'') (TIMEOUTS medium)
         (now stale_session)) = Inr 0
   \<and> fault (page stale_session 0) Click = Some StaleElementReferenceException
   \<and> fst (click_element_safe (by_css ''input[type=\"email\"]'') None stale_session) = Inr False
   \<and> out (snd (click_element_safe (by_css ''input[type=\"email\"]'') None stale_session))
       = [Click_failed StaleElementReferenceException]
   \<and> fst (type_text_safe (by_css ''input[type=\"email\"]'') ''demo'' True stale_session) = Inr False
   \<and> fst (type_text_safe (by_css ''input[type=\"email\"]'') ''demo'' False stale_session) = Inr False
   \<and> out (snd (type_text_safe (by_css ''input[type=\"email\"]'') ''demo'' True stale_session))
       = [Text_input_failed StaleElementReferenceException]
   \<and> fst (get_text_safe (by_css ''input[type=\"email\"]'') stale_session) = Inr []
   \<and> out (snd (get_text_safe (by_css ''input[type=\"email\"]'') stale_session))
       = [Get_text_failed StaleElementReferenceException]
   \<and> driver rejecting_session \<noteq> None
   \<and> fst (until_clickable rejecting_session (by_css ''button'') (TIMEOUTS medium)
         (now rejecting_session)) = Inl StaleElementReferenceException
   \<and> fst (click_element_safe (by_css ''button'') None rejecting_session)
       = Inl StaleElementReferenceException
   \<and> fst (find_element_safe (by_css ''h1'') None rejecting_session)
       = Inl WebDriverException"
proof -
  have d1: "driver login_session \<noteq> None" by (simp add: login_session_def)
  have d2: "driver stale_session \<noteq> None" by (simp add: stale_session_def login_session_def)
  have d3: "driver rejecting_session \<noteq> None" by (simp add: rejecting_session_def login_session_def)
  have o1: "out login_session = []" by (simp add: login_session_def)
  have o2: "out stale_session = []" by (simp add: stale_session_def login_session_def)
  have n: "or_default None (TIMEOUTS medium) = TIMEOUTS medium" by (simp add: or_default_def)
  have p1: "fst (until_present login_session (by_css ''.missing'') (TIMEOUTS medium)
      (now login_session)) = Inl TimeoutException"
    by (simp add: login_session_def login_lookup_def by_css_def)
  have c1: "fst (until_clickable login_session (by_css ''.missing'') (TIMEOUTS medium)
      (now login_session)) = Inl TimeoutException"
    by (simp add: login_session_def login_lookup_def by_css_def)
  have p2: "fst (until_present stale_session (by_css ''input[type=\"email\"]'') (TIMEOUTS medium)
         (now stale_session)) = Inr 0"
    by (simp add: stale_session_def login_session_def login_lookup_def by_css_def)
  have c2: "fst (until_clickable stale_session (by_css ''input[type=\"email\"]'') (TIMEOUTS medium)
         (now stale_session)) = Inr 0"
    by (simp add: stale_session_def login_session_def login_lookup_def by_css_def)
  have f2: "fault (page stale_session 0) Click = Some StaleElementReferenceException"
    "fault (page stale_session 0) Clear = Some StaleElementReferenceException"
    "fault (page stale_session 0) SendKeys = Some StaleElementReferenceException"
    "fault (page stale_session 0) GetText = Some StaleElementReferenceException"
    by (simp_all add: stale_session_def)
  have p3: "fst (until_present rejecting_session (by_css ''h1'') (TIMEOUTS medium)
         (now rejecting_session)) = Inl WebDriverException"
    by (simp add: rejecting_session_def)
  have c3: "fst (until_clickable rejecting_session (by_css ''button'') (TIMEOUTS medium)
         (now rejecting_session)) = Inl StaleElementReferenceException"
    by (simp add: rejecting_session_def)
  note T1 = soft_failures_are_values [OF d1, where locator = "by_css ''.missing''"
      and timeout = None and keys = "''demo''" and clear_first = True, unfolded n o1 append_Nil]
  note T2 = soft_failures_are_values [OF d2, where locator = "by_css ''input[type=\"email\"]''"
      and timeout = None and keys = "''demo''" and clear_first = True and element = 0
      and x = StaleElementReferenceException, unfolded n o2 append_Nil]
  note T2' = soft_failures_are_values [OF d2, where locator = "by_css ''input[type=\"email\"]''"
      and timeout = None and keys = "''demo''" and clear_first = False and element = 0
      and x = StaleElementReferenceException, unfolded n o2 append_Nil]
  note T3 = soft_failures_are_values [OF d3, where locator = "by_css ''button''"
      and timeout = None and x = StaleElementReferenceException, unfolded n]
  note T3' = soft_failures_are_values [OF d3, where locator = "by_css ''h1''"
      and timeout = None and x = WebDriverException, unfolded n]
  from T1 p1 c1 have a: "fst (find_element_safe (by_css ''.missing'') None login_session) = Inr None
     \<and> out (snd (find_element_safe (by_css ''.missing'') None login_session))
       = [Element_not_found (by_css ''.missing'')]
     \<and> fst (click_element_safe (by_css ''.missing'') None login_session) = Inr False
     \<and> out (snd (click_element_safe (by_css ''.missing'') None login_session))
       = [Element_not_clickable (by_css ''.missing'')]
     \<and> fst (type_text_safe (by_css ''.missing'') ''demo'' True login_session) = Inr False
     \<and> fst (get_text_safe (by_css ''.missing'') login_session) = Inr []"
    by simp
  from T2 p2 c2 f2 have b: "fst (click_element_safe (by_css ''input[type=\"email\"]'') None stale_session) = Inr False
     \<and> out (snd (click_element_safe (by_css ''input[type=\"email\"]'') None stale_session))
       = [Click_failed StaleElementReferenceException]
     \<and> fst (type_text_safe (by_css ''input[type=\"email\"]'') ''demo'' True stale_session) = Inr False
     \<and> out (snd (type_text_safe (by_css ''input[type=\"email\"]'') ''demo'' True stale_session))
       = [Text_input_failed StaleElementReferenceException]
     \<and> fst (get_text_safe (by_css ''input[type=\"email\"]'') stale_session) = Inr []
     \<and> out (snd (get_text_safe (by_css ''input[type=\"email\"]'') stale_session))
       = [Get_text_failed StaleElementReferenceException]"
    by simp
  from T2' p2 f2 have b': "fst (type_text_safe (by_css ''input[type=\"email\"]'') ''demo'' False stale_session) = Inr False"
    by simp
  from T3 c3 have c: "fst (click_element_safe (by_css ''button'') None rejecting_session)
       = Inl StaleElementReferenceException"
    by simp
  from T3' p3 have c': "fst (find_element_safe (by_css ''h1'') None rejecting_session)
       = Inl WebDriverException"
    by simp
  from d1 p1 a d2 p2 f2(1) b b' d3 c3 c c' show ?thesis by blast
qed

section \<open>The polling loops\<close>

text \<open>
  The two lemmas below say which samples a loop takes, for a loop that is already
  running (its start lies in the past), by induction along the loop.
\<close>

lemma sleep_half_fields [simp]:
  "now (sleep_half w) = now w + 500 + int (lag w (now w))"
  "sleeps (sleep_half w) = Suc (sleeps w)"
  "driver (sleep_half w) = driver w"
  "lag (sleep_half w) = lag w"
  "url_at (sleep_half w) = url_at w"
  "title_at (sleep_half w) = title_at w"
  by (simp_all add: sleep_half_def)

lemma instant_ge: "now w \<le> instant w k"
proof (induction k arbitrary: w)
  case 0
  show ?case by simp
next
  case (Suc k)
  have "now w \<le> now (sleep_half w)" by simp
  also have "\<dots> \<le> instant (sleep_half w) k" by (rule Suc.IH)
  finally show ?case by simp
qed

lemma url_loop_samples:
  assumes "driver w \<noteq> None"
    and "\<forall>k. instant w k - start_time < timeout * 1000 \<longrightarrow>
           (\<exists>url. url_at w (instant w k) = Inr url)"
  shows "fst (url_loop sub timeout start_time w) =
           Inr (\<exists>k. instant w k - start_time < timeout * 1000
                  \<and> (\<exists>url. url_at w (instant w k) = Inr url \<and> sublist sub url))"
  using assms
proof (induction sub timeout start_time w rule: url_loop.induct)
  case (1 sub timeout start_time w)
  let ?hit = "\<lambda>w. \<exists>k. instant w k - start_time < timeout * 1000
                  \<and> (\<exists>url. url_at w (instant w k) = Inr url \<and> sublist sub url)"
  show ?case
  proof (cases "now w - start_time < timeout * 1000")
    case False
    have "\<not> ?hit w"
    proof
      assume "?hit w"
      then obtain k where "instant w k - start_time < timeout * 1000" by blast
      with instant_ge [of w k] False show False by simp
    qed
    with False show ?thesis by (subst url_loop.simps) simp
  next
    case True
    from "1.prems"(2) [rule_format, of 0] True obtain url where url: "url_at w (now w) = Inr url"
      by auto
    with "1.prems"(1) have cur: "get_current_url w = Inr url"
      by (auto simp: get_current_url_def)
    show ?thesis
    proof (cases "sublist sub url")
      case True
      with url \<open>now w - start_time < timeout * 1000\<close> have "?hit w"
        by (intro exI [of _ 0]) simp
      with True cur \<open>now w - start_time < timeout * 1000\<close> show ?thesis
        by (subst url_loop.simps) simp
    next
      case False
      have readable: "\<forall>k. instant (sleep_half w) k - start_time < timeout * 1000 \<longrightarrow>
           (\<exists>url. url_at (sleep_half w) (instant (sleep_half w) k) = Inr url)"
      proof (intro allI impI)
        fix k :: nat
        assume "instant (sleep_half w) k - start_time < timeout * 1000"
        then have "instant w (Suc k) - start_time < timeout * 1000" by simp
        with "1.prems"(2) obtain u where "url_at w (instant w (Suc k)) = Inr u" by blast
        then show "\<exists>url. url_at (sleep_half w) (instant (sleep_half w) k) = Inr url"
          by simp
      qed
      from "1.prems"(1) have "driver (sleep_half w) \<noteq> None" by simp
      from "1.IH" [OF True cur False this readable]
      have IH: "fst (url_loop sub timeout start_time (sleep_half w)) = Inr (?hit (sleep_half w))" .
      have "?hit (sleep_half w) \<longleftrightarrow> ?hit w"
      proof
        assume "?hit (sleep_half w)"
        then obtain k u where "instant w (Suc k) - start_time < timeout * 1000"
          "url_at w (instant w (Suc k)) = Inr u" "sublist sub u"
          by auto
        then show "?hit w" by blast
      next
        assume "?hit w"
        then obtain k u where k: "instant w k - start_time < timeout * 1000"
          "url_at w (instant w k) = Inr u" "sublist sub u"
          by blast
        with url False have "k \<noteq> 0" by (cases k) auto
        then obtain j where "k = Suc j" by (cases k) auto
        with k show "?hit (sleep_half w)"
          by (intro exI [of _ j]) auto
      qed
      with IH True cur False show ?thesis
        by (subst url_loop.simps) simp
    qed
  qed
qed



text \<open>
  C3. In a session with a driver whose \<^verbatim>\<open>current_url\<close> can be read,
  \<^verbatim>\<open>wait_for_url_contains\<close> does not raise, and it returns \<^verbatim>\<open>True\<close> if and only if
  one of the samples taken before the deadline contains the text, letter for letter:
  the samples are the URLs at the instants \<open>instant w k\<close> that lie less than the timeout
  after the call. Otherwise it returns \<^verbatim>\<open>False\<close>.
\<close>

theorem wait_for_url_contains_samples:
  assumes "driver w \<noteq> None"
    and "\<forall>k. instant w k - now w < 1000 * or_default timeout (TIMEOUTS medium) \<longrightarrow>
           (\<exists>url. url_at w (instant w k) = Inr url)"
  shows "fst (wait_for_url_contains sub timeout w) =
           Inr (\<exists>k. instant w k - now w < 1000 * or_default timeout (TIMEOUTS medium)
                  \<and> (\<exists>url. url_at w (instant w k) = Inr url \<and> sublist sub url))"
  using url_loop_samples [of w "now w" "or_default timeout (TIMEOUTS medium)" sub] assms
  by (simp add: wait_for_url_contains_def Let_def mult.commute)

lemma navigating_instant_2: "instant navigating_session 2 = 1000"
  by (simp add: eval_nat_numeral navigating_session_def login_session_def)

theorem wait_for_url_contains_samples_witness:
  "driver navigating_session \<noteq> None
   \<and> (\<forall>t. \<exists>url. url_at navigating_session t = Inr url)
   \<and> instant navigating_session 2 = 1000
   \<and> url_at navigating_session 1000 = Inr ''http://localhost:3000/dashboard''
   \<and> fst (wait_for_url_contains ''/dashboard'' (Some 5) navigating_session) = Inr True
   \<and> fst (wait_for_url_contains ''/Dashboard'' (Some 5) navigating_session) = Inr False"
proof -
  have d: "driver navigating_session \<noteq> None"
    by (simp add: navigating_session_def login_session_def)
  have r: "\<forall>t. \<exists>url. url_at navigating_session t = Inr url"
    by (simp add: navigating_session_def login_session_def)
  then have r': "\<forall>k. instant navigating_session k - now navigating_session
        < 1000 * or_default (Some 5) (TIMEOUTS medium) \<longrightarrow>
      (\<exists>url. url_at navigating_session (instant navigating_session k) = Inr url)"
    by blast
  have u: "url_at navigating_session 1000 = Inr ''http://localhost:3000/dashboard''"
    by (simp add: navigating_session_def)
  have n: "now navigating_session = 0"
    by (simp add: navigating_session_def login_session_def)
  have hit: "\<exists>k. instant navigating_session k - now navigating_session
        < 1000 * or_default (Some 5) (TIMEOUTS medium)
      \<and> (\<exists>url. url_at navigating_session (instant navigating_session k) = Inr url
            \<and> sublist ''/dashboard'' url)"
    by (rule exI [of _ 2]) (simp add: navigating_instant_2 u n or_default_def sublist_code)
  have "\<forall>t url. url_at navigating_session t = Inr url \<longrightarrow> \<not> sublist ''/Dashboard'' url"
    by (auto simp: navigating_session_def sublist_code split: if_splits)
  then have miss: "\<not> (\<exists>k. instant navigating_session k - now navigating_session
        < 1000 * or_default (Some 5) (TIMEOUTS medium)
      \<and> (\<exists>url. url_at navigating_session (instant navigating_session k) = Inr url
            \<and> sublist ''/Dashboard'' url))"
    by blast
  from wait_for_url_contains_samples [OF d r', of "''/dashboard''"] hit
  have yes: "fst (wait_for_url_contains ''/dashboard'' (Some 5) navigating_session) = Inr True"
    by simp
  from wait_for_url_contains_samples [OF d r', of "''/Dashboard''"] miss
  have no: "fst (wait_for_url_contains ''/Dashboard'' (Some 5) navigating_session) = Inr False"
    by simp
  from d r navigating_instant_2 u yes no show ?thesis by blast
qed

subsection \<open>The first sample\<close>

lemma sleeps_web_driver_wait: "sleeps (snd (web_driver_wait c r t w)) = sleeps w"
  by (simp add: web_driver_wait_def Let_def split: option.splits prod.splits)

lemma sleeps_find_element_safe: "sleeps (snd (find_element_safe l t w)) = sleeps w"
proof -
  have "sleeps (snd (web_driver_wait (until_present w l) Inl (or_default t (TIMEOUTS medium)) w)) = sleeps w"
    by (rule sleeps_web_driver_wait)
  then show ?thesis
    by (auto simp: find_element_safe_def Let_def print_def split: prod.splits sum.splits)
qed

lemma sleeps_scan_selectors: "sleeps (snd (scan_selectors selectors w)) = sleeps w"
proof (induction selectors arbitrary: w)
  case Nil
  show ?case by simp
next
  case (Cons selector rest)
  have step: "sleeps (snd (find_element_safe (by_css selector) (Some 1) w)) = sleeps w"
    by (rule sleeps_find_element_safe)
  show ?case
  proof (cases "find_element_safe (by_css selector) (Some 1) w")
    case (Pair r w')
    with step have eq: "sleeps w' = sleeps w" by simp
    from Cons.IH [of w'] eq have "sleeps (snd (scan_selectors rest w')) = sleeps w" by simp
    with eq Pair show ?thesis
      by (auto split: sum.splits option.splits)
  qed
qed

text \<open>
  C4. Each of the three polling loops tests its condition before it sleeps. So when the
  deadline is not already over at the call (the timeout in force is positive: no
  override, or an override that is not negative) and the condition holds on the first
  sample, the loop returns that success without one call of \<^verbatim>\<open>time.sleep\<close>: for
  \<^verbatim>\<open>wait_for_any_element\<close> the first pass over the selectors finds a visible element
  and that element is returned; for the URL and title loops the first reading contains
  the text, \<^verbatim>\<open>True\<close> is returned and the state is the one at the call.
\<close>

theorem polling_checks_before_sleeping:
  assumes "0 < or_default timeout (TIMEOUTS medium)"
  shows "(scan_selectors selectors w = (Inr (Some element), w') \<longrightarrow>
            wait_for_any_element selectors timeout w = (Inr (Some element), w')
            \<and> sleeps w' = sleeps w)
       \<and> (get_current_url w = Inr url \<and> sublist sub url \<longrightarrow>
            wait_for_url_contains sub timeout w = (Inr True, w))
       \<and> (get_page_title w = Inr title \<and> sublist (lower sub) (lower title) \<longrightarrow>
            wait_for_title_contains sub timeout w = (Inr True, w))"
proof (intro conjI impI)
  assume scan: "scan_selectors selectors w = (Inr (Some element), w')"
  with assms show "wait_for_any_element selectors timeout w = (Inr (Some element), w')"
    unfolding wait_for_any_element_def Let_def
    by (subst any_element_loop.simps) simp
  from sleeps_scan_selectors [of selectors w] scan show "sleeps w' = sleeps w" by simp
next
  assume "get_current_url w = Inr url \<and> sublist sub url"
  with assms show "wait_for_url_contains sub timeout w = (Inr True, w)"
    unfolding wait_for_url_contains_def Let_def
    by (subst url_loop.simps) simp
next
  assume "get_page_title w = Inr title \<and> sublist (lower sub) (lower title)"
  with assms show "wait_for_title_contains sub timeout w = (Inr True, w)"
    unfolding wait_for_title_contains_def Let_def
    by (subst title_loop.simps) simp
qed

lemma scan_login:
  "scan_selectors [''#missing'', ''input[type=\"email\"]''] login_session =
     (Inr (Some 0), login_session\<lparr>now := 1000, waited := [1, 1],
        out := [Element_not_found (by_css ''#missing'')]\<rparr>)"
  by (simp add: login_session_def find_element_safe_def web_driver_wait_def Let_def
      login_lookup_def by_css_def or_default_def print_def el_is_displayed_def empty_field_def)

theorem polling_checks_before_sleeping_witness:
  "0 < or_default None (TIMEOUTS medium)
   \<and> fst (wait_for_any_element [''#missing'', ''input[type=\"email\"]''] None login_session) = Inr (Some 0)
   \<and> sleeps (snd (wait_for_any_element [''#missing'', ''input[type=\"email\"]''] None login_session)) = 0
   \<and> wait_for_url_contains ''/login'' None login_session = (Inr True, login_session)
   \<and> wait_for_title_contains ''login'' None login_session = (Inr True, login_session)"
proof -
  have pos: "0 < or_default None (TIMEOUTS medium)" by (simp add: or_default_def)
  have url: "get_current_url login_session = Inr ''http://localhost:3000/login''
      \<and> sublist ''/login'' ''http://localhost:3000/login''"
    by (simp add: get_current_url_def login_session_def sublist_code)
  have low: "sublist (lower ''login'') (lower ''EduAssist Login'')" by code_simp
  have title: "get_page_title login_session = Inr ''EduAssist Login''
      \<and> sublist (lower ''login'') (lower ''EduAssist Login'')"
    using low by (simp add: get_page_title_def get_title_def login_session_def)
  from polling_checks_before_sleeping [OF pos, where w = login_session
      and selectors = "[''#missing'', ''input[type=\"email\"]'']" and element = 0
      and w' = "login_session\<lparr>now := 1000, waited := [1, 1],
        out := [Element_not_found (by_css ''#missing'')]\<rparr>"
      and url = "''http://localhost:3000/login''" and sub = "''/login''"]
    polling_checks_before_sleeping [OF pos, where w = login_session
      and title = "''EduAssist Login''" and sub = "''login''"]
    scan_login url title pos
  show ?thesis by (simp add: login_session_def)
qed

section \<open>quit_driver\<close>

text \<open>
  C7. \<^verbatim>\<open>quit_driver\<close> never raises, whatever the state of the session and whatever the
  driver's \<^verbatim>\<open>quit()\<close> does: not on a first call, and not on a second call right after
  it. With no driver (never initialised, or initialisation failed before the handle was
  stored) it changes nothing; once the driver's \<^verbatim>\<open>quit()\<close> has gone through, the handles
  are \<^verbatim>\<open>None\<close> and a second call changes nothing.
\<close>

theorem quit_driver_idempotent:
  "fst (quit_driver w) = Inr ()
   \<and> fst (quit_driver (snd (quit_driver w))) = Inr ()
   \<and> (driver w = None \<longrightarrow> quit_driver w = (Inr (), w))
   \<and> (driver w \<noteq> None \<and> quit_res w (quits w) = None \<longrightarrow>
        driver (snd (quit_driver w)) = None \<and> wait (snd (quit_driver w)) = None
        \<and> quit_driver (snd (quit_driver w)) = (Inr (), snd (quit_driver w)))"
proof (cases "driver w")
  case None
  then show ?thesis by (simp add: quit_driver_def)
next
  case (Some d)
  show ?thesis
  proof (cases "quit_res w (quits w)")
    case None
    with Some show ?thesis
      by (simp add: quit_driver_def Let_def print_def)
  next
    case (Some e)
    with \<open>driver w = Some d\<close> have "driver (snd (quit_driver w)) = Some d"
      by (simp add: quit_driver_def Let_def print_def)
    then have "fst (quit_driver (snd (quit_driver w))) = Inr ()"
      by (simp add: quit_driver_def [of "snd (quit_driver w)"] Let_def split: option.splits)
    with Some \<open>driver w = Some d\<close> show ?thesis
      by (simp add: quit_driver_def [of w] Let_def print_def)
  qed
qed

theorem quit_driver_idempotent_witness:
  "driver closed_session = None
   \<and> quit_driver closed_session = (Inr (), closed_session)
   \<and> driver login_session \<noteq> None \<and> quit_res login_session (quits login_session) = None
   \<and> driver (snd (quit_driver login_session)) = None
   \<and> fst (quit_driver (snd (quit_driver login_session))) = Inr ()"
  using quit_driver_idempotent [of closed_session] quit_driver_idempotent [of login_session]
  by (simp add: closed_session_def login_session_def)

subsection \<open>After quit_driver\<close>

text \<open>
  C6. When the driver's \<^verbatim>\<open>quit()\<close> goes through, \<^verbatim>\<open>quit_driver\<close> sets both handles to
  \<^verbatim>\<open>None\<close>. From then on \<^verbatim>\<open>get_driver\<close> and \<^verbatim>\<open>get_wait\<close> raise the \<^verbatim>\<open>RuntimeError\<close> that
  says that the driver is not initialised, and \<^verbatim>\<open>quit_driver\<close> does nothing. The other
  operations do not go through \<^verbatim>\<open>get_driver\<close>: they use \<^verbatim>\<open>cls._driver\<close> as it is.
  \<^verbatim>\<open>get_current_url\<close> and \<^verbatim>\<open>get_title\<close> read an attribute of \<^verbatim>\<open>None\<close>, the waits hand
  \<^verbatim>\<open>None\<close> to their condition, and each of them raises \<^verbatim>\<open>AttributeError\<close>: not the error
  that names the cause, and not a no-op. The theorem runs them in \<open>login_session\<close> after
  \<^verbatim>\<open>quit_driver\<close>.
\<close>

theorem operations_after_quit_driver:
  "driver (snd (quit_driver login_session)) = None
   \<and> get_driver (snd (quit_driver login_session))
       = Inl (RuntimeError ''WebDriver not initialized. Call initialize_driver() first.'')
   \<and> get_wait (snd (quit_driver login_session))
       = Inl (RuntimeError ''WebDriverWait not initialized. Call initialize_driver() first.'')
   \<and> get_current_url (snd (quit_driver login_session)) = Inl AttributeError
   \<and> get_title (snd (quit_driver login_session)) = Inl AttributeError
   \<and> fst (find_element_safe (by_css ''h1'') None (snd (quit_driver login_session)))
       = Inl AttributeError
   \<and> fst (click_element_safe (by_css ''button'') None (snd (quit_driver login_session)))
       = Inl AttributeError
   \<and> fst (wait_for_page_load None (snd (quit_driver login_session))) = Inl AttributeError"
  by (simp add: quit_driver_def login_session_def Let_def print_def get_driver_def get_wait_def
      get_current_url_def get_title_def find_element_safe_def click_element_safe_def
      wait_for_element_clickable_def wait_for_page_load_def web_driver_wait_def)

section \<open>Typing and reading\<close>

text \<open>
  C8, as stated, does not hold. \<^verbatim>\<open>send_keys\<close> changes the \<^verbatim>\<open>value\<close> property of a form
  control; \<^verbatim>\<open>get_text_safe\<close> returns \<^verbatim>\<open>element.text\<close>, the rendered text of the element's
  content, which for an input field is empty whatever its value is. In \<open>login_session\<close>,
  typing the address into the e-mail field succeeds and reading the field's text back
  gives the empty string.
\<close>

theorem typed_text_is_not_the_rendered_text:
  "fst (type_text_safe (by_css ''input[type=\"email\"]'') ''demo@eduassist.com'' True login_session)
     = Inr True
   \<and> fst (get_text_safe (by_css ''input[type=\"email\"]'')
         (snd (type_text_safe (by_css ''input[type=\"email\"]'') ''demo@eduassist.com'' True
            login_session)))
     = Inr []"
  by (simp add: type_text_safe_def get_text_safe_def find_element_safe_def web_driver_wait_def
      Let_def or_default_def login_session_def login_lookup_def by_css_def el_clear_def
      el_send_keys_def el_text_def empty_field_def)

lemma find_again:
  assumes "driver w \<noteq> None"
    and "fst (until_present w locator (TIMEOUTS medium) (now w)) = Inr element"
  shows "\<exists>w'. find_element_safe locator None w = (Inr (Some element), w')
           \<and> page w' = page w \<and> driver w' = driver w \<and> until_present w' = until_present w
           \<and> out w' = out w"
  using assms
  by (auto simp: find_element_safe_def web_driver_wait_def Let_def or_default_def
      split: option.splits prod.splits sum.splits)

lemma type_text_safe_success:
  assumes "driver w \<noteq> None"
    and "fst (until_present w locator (TIMEOUTS medium) (now w)) = Inr element"
    and "fst (type_text_safe locator keys True w) = Inr True"
  shows "page (snd (type_text_safe locator keys True w))
           = (page w)(element := (page w element)\<lparr>val := keys\<rparr>)
       \<and> driver (snd (type_text_safe locator keys True w)) = driver w
       \<and> until_present (snd (type_text_safe locator keys True w)) = until_present w"
proof -
  from find_again [OF assms(1,2)] obtain w' where
    f: "find_element_safe locator None w = (Inr (Some element), w')"
    and p: "page w' = page w" "driver w' = driver w" "until_present w' = until_present w"
    by blast
  from assms(3) f p show ?thesis
    by (auto simp: type_text_safe_def el_clear_def el_send_keys_def print_def
        split: option.splits)
qed

text \<open>
  C8, amended. After a successful \<^verbatim>\<open>type_text_safe(locator, text)\<close> with
  \<^verbatim>\<open>clear_first=True\<close>, when the locator finds the same element again,
  \<^verbatim>\<open>get_element_attribute(locator, "value")\<close> returns exactly the typed text, and
  \<^verbatim>\<open>get_text_safe(locator)\<close> returns the rendered text the element had before, which
  typing has not changed (each provided the endpoint answers the read).
\<close>

theorem typed_text_is_the_value:
  assumes "driver w \<noteq> None"
    and "fst (until_present w locator (TIMEOUTS medium) (now w)) = Inr element"
    and "fst (type_text_safe locator keys True w) = Inr True"
    and "fst (until_present w locator (TIMEOUTS medium)
           (now (snd (type_text_safe locator keys True w)))) = Inr element"
  shows "(fault (page w element) GetAttribute = None \<longrightarrow>
            fst (get_element_attribute locator ''value''
                   (snd (type_text_safe locator keys True w))) = Inr keys)
       \<and> (fault (page w element) GetText = None \<longrightarrow>
            fst (get_text_safe locator (snd (type_text_safe locator keys True w)))
              = Inr (rendered (page w element)))"
proof -
  let ?w1 = "snd (type_text_safe locator keys True w)"
  from type_text_safe_success [OF assms(1,2,3)]
  have p1: "page ?w1 = (page w)(element := (page w element)\<lparr>val := keys\<rparr>)"
    and d1: "driver ?w1 = driver w" and u1: "until_present ?w1 = until_present w"
    by simp_all
  from assms(1) d1 have d: "driver ?w1 \<noteq> None" by simp
  from assms(4) u1 have "fst (until_present ?w1 locator (TIMEOUTS medium) (now ?w1)) = Inr element"
    by simp
  from find_again [OF d this] obtain w2 where
    f: "find_element_safe locator None ?w1 = (Inr (Some element), w2)"
    and p2: "page w2 = page ?w1"
    by blast
  show ?thesis
  proof (intro conjI impI)
    assume "fault (page w element) GetAttribute = None"
    with f p1 p2 show "fst (get_element_attribute locator ''value'' ?w1) = Inr keys"
      by (simp add: get_element_attribute_def el_get_attribute_def)
  next
    assume "fault (page w element) GetText = None"
    with f p1 p2 show "fst (get_text_safe locator ?w1) = Inr (rendered (page w element))"
      by (simp add: get_text_safe_def el_text_def)
  qed
qed


theorem typed_text_is_the_value_witness:
  "driver login_session \<noteq> None
   \<and> (\<forall>t. fst (until_present login_session (by_css ''input[type=\"email\"]'') (TIMEOUTS medium) t)
         = Inr 0)
   \<and> fst (type_text_safe (by_css ''input[type=\"email\"]'') ''demo@eduassist.com'' True login_session)
       = Inr True
   \<and> fault (page login_session 0) GetAttribute = None
   \<and> fault (page login_session 0) GetText = None
   \<and> fst (get_element_attribute (by_css ''input[type=\"email\"]'') ''value''
         (snd (type_text_safe (by_css ''input[type=\"email\"]'') ''demo@eduassist.com'' True
            login_session)))
       = Inr ''demo@eduassist.com''
   \<and> fst (get_text_safe (by_css ''input[type=\"email\"]'')
         (snd (type_text_safe (by_css ''input[type=\"email\"]'') ''demo@eduassist.com'' True
            login_session)))
       = Inr []"
proof -
  have d: "driver login_session \<noteq> None" by (simp add: login_session_def)
  have u: "\<forall>t. fst (until_present login_session (by_css ''input[type=\"email\"]'')
      (TIMEOUTS medium) t) = Inr 0"
    by (simp add: login_session_def login_lookup_def)
  have t: "fst (type_text_safe (by_css ''input[type=\"email\"]'') ''demo@eduassist.com'' True
      login_session) = Inr True"
    by (simp add: type_text_safe_def find_element_safe_def web_driver_wait_def
      Let_def or_default_def login_session_def login_lookup_def by_css_def el_clear_def
      el_send_keys_def empty_field_def)
  have f: "fault (page login_session 0) GetAttribute = None"
    "fault (page login_session 0) GetText = None"
    and r: "rendered (page login_session 0) = []"
    by (simp_all add: login_session_def empty_field_def)
  from typed_text_is_the_value [OF d u [rule_format] t u [rule_format]] f r
  have "fst (get_element_attribute (by_css ''input[type=\"email\"]'') ''value''
         (snd (type_text_safe (by_css ''input[type=\"email\"]'') ''demo@eduassist.com'' True
            login_session)))
       = Inr ''demo@eduassist.com''
   \<and> fst (get_text_safe (by_css ''input[type=\"email\"]'')
         (snd (type_text_safe (by_css ''input[type=\"email\"]'') ''demo@eduassist.com'' True
            login_session)))
       = Inr []"
    by simp
  with d u t f show ?thesis by simp
qed

section \<open>The timeout in force\<close>

lemma url_loop_never:
  assumes "driver w \<noteq> None"
    and "\<forall>t. \<exists>url. url_at w t = Inr url \<and> \<not> sublist sub url"
  shows "fst (url_loop sub timeout start_time w) = Inr False
       \<and> timeout * 1000 \<le> now (snd (url_loop sub timeout start_time w)) - start_time
       \<and> sleeps w \<le> sleeps (snd (url_loop sub timeout start_time w))
       \<and> (now w - start_time < timeout * 1000 \<longrightarrow>
            sleeps w < sleeps (snd (url_loop sub timeout start_time w)))"
  using assms
proof (induction sub timeout start_time w rule: url_loop.induct)
  case (1 sub timeout start_time w)
  show ?case
  proof (cases "now w - start_time < timeout * 1000")
    case False
    then show ?thesis by (subst (1 2 3 4) url_loop.simps) simp
  next
    case True
    from "1.prems"(2) obtain url where url: "url_at w (now w) = Inr url" "\<not> sublist sub url"
      by blast
    with "1.prems"(1) have cur: "get_current_url w = Inr url"
      by (auto simp: get_current_url_def)
    from "1.prems" have "driver (sleep_half w) \<noteq> None"
      and "\<forall>t. \<exists>url. url_at (sleep_half w) t = Inr url \<and> \<not> sublist sub url"
      by simp_all
    from "1.IH" [OF True cur url(2) this]
    have IH: "fst (url_loop sub timeout start_time (sleep_half w)) = Inr False
       \<and> timeout * 1000 \<le> now (snd (url_loop sub timeout start_time (sleep_half w))) - start_time
       \<and> sleeps (sleep_half w) \<le> sleeps (snd (url_loop sub timeout start_time (sleep_half w)))"
      by simp
    have "url_loop sub timeout start_time w = url_loop sub timeout start_time (sleep_half w)"
      using True cur url(2) by (subst url_loop.simps) simp
    with IH show ?thesis by simp
  qed
qed

lemma or_default_zero: "or_default (Some 0) d = or_default None d"
  by (simp add: or_default_def)

lemma waited_web_driver_wait: "waited (snd (web_driver_wait c r t w)) = waited w @ [t]"
  by (simp add: web_driver_wait_def Let_def split: option.splits prod.splits)

text \<open>
  C9. An override of \<open>0\<close> is falsy, so \<^verbatim>\<open>timeout or config.TIMEOUTS['medium']\<close> replaces it
  by the default: each of the five functions does with the override \<open>0\<close> exactly what
  it does with no override. The Selenium wait is built with the 15 seconds of the
  medium tier; \<^verbatim>\<open>wait_for_url_contains\<close>, on a URL that never contains the text, sleeps
  and returns \<^verbatim>\<open>False\<close> only when the 15 seconds are over; and \<^verbatim>\<open>wait_for_any_element\<close>
  still scans the selectors and returns what the scan finds, where a wait of length
  zero would return \<^verbatim>\<open>None\<close> without a scan.
\<close>

theorem zero_timeout_is_no_override:
  "find_element_safe locator (Some 0) w = find_element_safe locator None w
   \<and> wait_for_element_clickable locator (Some 0) w = wait_for_element_clickable locator None w
   \<and> wait_for_page_load (Some 0) w = wait_for_page_load None w
   \<and> wait_for_url_contains sub (Some 0) w = wait_for_url_contains sub None w
   \<and> wait_for_any_element selectors (Some 0) w = wait_for_any_element selectors None w
   \<and> waited (snd (find_element_safe locator (Some 0) w)) = waited w @ [TIMEOUTS medium]
   \<and> waited (snd (wait_for_element_clickable locator (Some 0) w)) = waited w @ [TIMEOUTS medium]
   \<and> waited (snd (wait_for_page_load (Some 0) w)) = waited w @ [TIMEOUTS medium]
   \<and> (driver w \<noteq> None \<and> (\<forall>t. \<exists>url. url_at w t = Inr url \<and> \<not> sublist sub url) \<longrightarrow>
       fst (wait_for_url_contains sub (Some 0) w) = Inr False
       \<and> now w + 1000 * TIMEOUTS medium \<le> now (snd (wait_for_url_contains sub (Some 0) w))
       \<and> sleeps w < sleeps (snd (wait_for_url_contains sub (Some 0) w)))
   \<and> (scan_selectors selectors w = (Inr (Some element), w') \<longrightarrow>
       wait_for_any_element selectors (Some 0) w = (Inr (Some element), w'))"
proof (intro conjI impI)
  show "find_element_safe locator (Some 0) w = find_element_safe locator None w"
    by (simp add: find_element_safe_def or_default_zero)
  show "wait_for_element_clickable locator (Some 0) w = wait_for_element_clickable locator None w"
    by (simp add: wait_for_element_clickable_def or_default_zero)
  show "wait_for_page_load (Some 0) w = wait_for_page_load None w"
    by (simp add: wait_for_page_load_def or_default_zero)
  show "wait_for_url_contains sub (Some 0) w = wait_for_url_contains sub None w"
    by (simp add: wait_for_url_contains_def or_default_zero)
  show "wait_for_any_element selectors (Some 0) w = wait_for_any_element selectors None w"
    by (simp add: wait_for_any_element_def or_default_zero)
  have "waited (snd (web_driver_wait (until_present w locator) Inl (TIMEOUTS medium) w))
      = waited w @ [TIMEOUTS medium]"
    by (rule waited_web_driver_wait)
  then show "waited (snd (find_element_safe locator (Some 0) w)) = waited w @ [TIMEOUTS medium]"
    by (auto simp: find_element_safe_def or_default_def Let_def print_def
        split: prod.splits sum.splits)
  have "waited (snd (web_driver_wait (until_clickable w locator) Inl (TIMEOUTS medium) w))
      = waited w @ [TIMEOUTS medium]"
    by (rule waited_web_driver_wait)
  then show "waited (snd (wait_for_element_clickable locator (Some 0) w)) = waited w @ [TIMEOUTS medium]"
    by (auto simp: wait_for_element_clickable_def or_default_def Let_def print_def
        split: prod.splits sum.splits)
  have "waited (snd (web_driver_wait (until_ready w) Some (TIMEOUTS medium) w))
      = waited w @ [TIMEOUTS medium]"
    by (rule waited_web_driver_wait)
  then show "waited (snd (wait_for_page_load (Some 0) w)) = waited w @ [TIMEOUTS medium]"
    by (auto simp: wait_for_page_load_def or_default_def Let_def print_def
        split: prod.splits option.splits)
next
  assume a: "driver w \<noteq> None \<and> (\<forall>t. \<exists>url. url_at w t = Inr url \<and> \<not> sublist sub url)"
  then have d: "driver w \<noteq> None" and u: "\<forall>t. \<exists>url. url_at w t = Inr url \<and> \<not> sublist sub url"
    by simp_all
  note L = url_loop_never [OF d u, of "TIMEOUTS medium" "now w"]
  have eq: "wait_for_url_contains sub (Some 0) w = url_loop sub (TIMEOUTS medium) (now w) w"
    by (simp add: wait_for_url_contains_def or_default_def)
  from L show "fst (wait_for_url_contains sub (Some 0) w) = Inr False"
    unfolding eq by blast
  from L show "now w + 1000 * TIMEOUTS medium \<le> now (snd (wait_for_url_contains sub (Some 0) w))"
    unfolding eq by simp
  from L show "sleeps w < sleeps (snd (wait_for_url_contains sub (Some 0) w))"
    unfolding eq by simp
next
  assume "scan_selectors selectors w = (Inr (Some element), w')"
  then show "wait_for_any_element selectors (Some 0) w = (Inr (Some element), w')"
    unfolding wait_for_any_element_def Let_def
    by (subst any_element_loop.simps) (simp add: or_default_def)
qed

theorem zero_timeout_is_no_override_witness:
  "driver login_session \<noteq> None
   \<and> (\<forall>t. \<exists>url. url_at login_session t = Inr url \<and> \<not> sublist ''/dashboard'' url)
   \<and> fst (wait_for_url_contains ''/dashboard'' (Some 0) login_session) = Inr False
   \<and> 15000 \<le> now (snd (wait_for_url_contains ''/dashboard'' (Some 0) login_session))
   \<and> scan_selectors [''input[type=\"email\"]''] login_session =
        (Inr (Some 0), login_session\<lparr>waited := [1]\<rparr>)
   \<and> wait_for_any_element [''input[type=\"email\"]''] (Some 0) login_session =
        (Inr (Some 0), login_session\<lparr>waited := [1]\<rparr>)"
proof -
  have d: "driver login_session \<noteq> None" by (simp add: login_session_def)
  have u: "\<forall>t. \<exists>url. url_at login_session t = Inr url \<and> \<not> sublist ''/dashboard'' url"
    by (simp add: login_session_def sublist_code)
  have s: "scan_selectors [''input[type=\"email\"]''] login_session =
        (Inr (Some 0), login_session\<lparr>waited := [1]\<rparr>)"
    by (simp add: login_session_def find_element_safe_def web_driver_wait_def Let_def
      login_lookup_def by_css_def or_default_def print_def el_is_displayed_def empty_field_def)
  note T = zero_timeout_is_no_override [where w = login_session and sub = "''/dashboard''"
      and selectors = "[''input[type=\"email\"]'']" and element = 0
      and w' = "login_session\<lparr>waited := [1]\<rparr>"]
  from T d u have a: "fst (wait_for_url_contains ''/dashboard'' (Some 0) login_session) = Inr False"
    by blast
  from T d u have "now login_session + 1000 * TIMEOUTS medium
      \<le> now (snd (wait_for_url_contains ''/dashboard'' (Some 0) login_session))"
    by blast
  moreover have "now login_session = 0" by (simp add: login_session_def)
  ultimately have b: "15000 \<le> now (snd (wait_for_url_contains ''/dashboard'' (Some 0) login_session))"
    by simp
  from T s have c: "wait_for_any_element [''input[type=\"email\"]''] (Some 0) login_session =
        (Inr (Some 0), login_session\<lparr>waited := [1]\<rparr>)"
    by blast
  from d u a b s c show ?thesis by blast
qed

section \<open>Letter case\<close>



end
